theory Spec2Isabelle
  imports Complex_Main "HOL-Library.Log_Nat"
begin

section \<open>Frequency filters and spectral mixing of \<open>animatediff/utils/freeinit_utils.py\<close>\<close>

text \<open>
  Numbers. A Python float is a real number. Where the code only stores a computed value
  (the gaussian and butterworth entries, the transforms of the mixer) the arithmetic is
  exact, so rounding error is outside the model there. Where the code decides something on
  a computed value (the comparison of the ideal filter, \<^verbatim>\<open>round\<close> in the box filter) every
  operation is rounded to a double as IEEE 754 prescribes. Python integers that index or
  measure a tensor are natural numbers; slice bounds, which may be negative, are integers.
\<close>

subsection \<open>Errors and tensors\<close>

datatype error = NotImplementedError | IndexError | RuntimeError

text \<open>
  A dense tensor: its shape and its entry at every multi-index. Only the entries at
  multi-indices inside the shape are meaningful.
\<close>

record 'a tensor =
  shape :: "nat list"
  elems :: "nat list \<Rightarrow> 'a"

definition valid_index :: "nat list \<Rightarrow> nat list \<Rightarrow> bool" where
  "valid_index s idx = list_all2 (\<lambda>i n. i < n) idx s"

text \<open>\<^verbatim>\<open>torch.zeros(shape)\<close>\<close>

definition zeros :: "nat list \<Rightarrow> real tensor" where
  "zeros s = \<lparr>shape = s, elems = (\<lambda>idx. 0)\<rparr>"

text \<open>
  \<^verbatim>\<open>T, H, W = shape[-3], shape[-2], shape[-1]\<close>: a negative index into a tuple that is too
  short raises \<^verbatim>\<open>IndexError\<close>.
\<close>

definition trailing_dims :: "nat list \<Rightarrow> error + (nat \<times> nat \<times> nat)" where
  "trailing_dims s =
     (let n = length s in
      if n < 3 then Inl IndexError else Inr (s ! (n - 3), s ! (n - 2), s ! (n - 1)))"

text \<open>
  The last three components of a multi-index, which \<^verbatim>\<open>mask[..., t, h, w]\<close> addresses;
  the ellipsis ranges over all leading components.
\<close>

definition last3 :: "nat list \<Rightarrow> (nat \<times> nat \<times> nat) option" where
  "last3 idx =
     (let n = length idx in
      if n < 3 then None else Some (idx ! (n - 3), idx ! (n - 2), idx ! (n - 1)))"

text \<open>
  \<^verbatim>\<open>mask[..., t, h, w] = v\<close>. The loops below only call it with \<open>t\<close>, \<open>h\<close>, \<open>w\<close> inside
  the trailing dimensions, where torch does not raise.
\<close>

definition set_thw :: "'a tensor \<Rightarrow> nat \<Rightarrow> nat \<Rightarrow> nat \<Rightarrow> 'a \<Rightarrow> 'a tensor" where
  "set_thw m t h w v =
     m\<lparr>elems := (\<lambda>idx. if last3 idx = Some (t, h, w) then v else elems m idx)\<rparr>"

subsection \<open>Double-precision arithmetic\<close>

text \<open>Rounding to the nearest integer, a tie to the even one.\<close>

definition nearest_even :: "real \<Rightarrow> int" where
  "nearest_even x =
     (let f = \<lfloor>x\<rfloor>; r = x - of_int f in
      if r < 1 / 2 then f else if 1 / 2 < r then f + 1 else if even f then f else f + 1)"

text \<open>The binary exponent of a positive number \<open>a\<close>: the \<open>e\<close> with \<open>2 ^ e \<le> a < 2 ^ (e + 1)\<close>.\<close>

definition exponent :: "real \<Rightarrow> int" where
  "exponent a = (if 1 \<le> a then bitlen \<lfloor>a\<rfloor> - 1 else - bitlen (\<lceil>1 / a\<rceil> - 1))"

text \<open>
  The double nearest to a real number: 53 significant bits, a tie to the even
  significand. The exponent is not bounded, so overflow, underflow and subnormal numbers
  are outside the model.
\<close>

definition round_double :: "real \<Rightarrow> real" where
  "round_double x =
     (if x = 0 then 0
      else let ulp = 2 powi (exponent \<bar>x\<bar> - 52)
           in real_of_int (nearest_even (x / ulp)) * ulp)"

text \<open>
  The sum, difference, product and quotient of two floats, and the quotient \<^verbatim>\<open>a / b\<close>
  of two Python integers, are the exact results rounded to the nearest double.
\<close>

definition fadd :: "real \<Rightarrow> real \<Rightarrow> real" where
  "fadd x y = round_double (x + y)"

definition fsub :: "real \<Rightarrow> real \<Rightarrow> real" where
  "fsub x y = round_double (x - y)"

definition fmul :: "real \<Rightarrow> real \<Rightarrow> real" where
  "fmul x y = round_double (x * y)"

definition fdiv :: "real \<Rightarrow> real \<Rightarrow> real" where
  "fdiv x y = round_double (x / y)"

text \<open>
  \<^verbatim>\<open>x ** 2\<close> on a float is the C library's \<^verbatim>\<open>pow(x, 2.0)\<close>, whose last bit neither
  Python nor C fixes. The filters that depend on it take it as the parameter \<open>sq\<close>; the
  correctly rounded square is one such function.
\<close>

definition square_rounded :: "real \<Rightarrow> real" where
  "square_rounded x = round_double (x * x)"

text \<open>Python's \<^verbatim>\<open>round\<close> of a float to an integer: to the nearest, a tie to the even one.\<close>

definition py_round :: "real \<Rightarrow> int" where
  "py_round x = nearest_even x"

subsection \<open>The distance-based filters\<close>

text \<open>The expression \<^verbatim>\<open>d_square\<close> of the gaussian and butterworth loops, in exact arithmetic.\<close>

definition d_square :: "real \<Rightarrow> real \<Rightarrow> nat \<Rightarrow> nat \<Rightarrow> nat \<Rightarrow> nat \<Rightarrow> nat \<Rightarrow> nat \<Rightarrow> real" where
  "d_square d_s d_t T H W t h w =
     ((d_s / d_t) * (2 * real t / real T - 1))\<^sup>2 + (2 * real h / real H - 1)\<^sup>2
       + (2 * real w / real W - 1)\<^sup>2"

text \<open>
  The triple loop
  \<^verbatim>\<open>for t in range(T): for h in range(H): for w in range(W): mask[..., t,h,w] = f(t,h,w)\<close>.
\<close>

definition loop_thw ::
  "nat \<Rightarrow> nat \<Rightarrow> nat \<Rightarrow> (nat \<Rightarrow> nat \<Rightarrow> nat \<Rightarrow> 'a) \<Rightarrow> 'a tensor \<Rightarrow> 'a tensor" where
  "loop_thw T H W f m0 =
     fold (\<lambda>t m. fold (\<lambda>h m. fold (\<lambda>w m. set_thw m t h w (f t h w)) [0..<W] m) [0..<H] m)
       [0..<T] m0"

definition gaussian_low_pass_filter :: "nat list \<Rightarrow> real \<Rightarrow> real \<Rightarrow> error + real tensor" where
  "gaussian_low_pass_filter s d_s d_t =
     (case trailing_dims s of
        Inl e \<Rightarrow> Inl e
      | Inr (T, H, W) \<Rightarrow>
          let mask = zeros s in
          if d_s = 0 \<or> d_t = 0 then Inr mask
          else Inr (loop_thw T H W
                 (\<lambda>t h w. exp (- 1 / (2 * d_s\<^sup>2) * d_square d_s d_t T H W t h w)) mask))"

text \<open>The order \<open>n\<close> of the butterworth filter is a natural number (default 4).\<close>

definition butterworth_low_pass_filter ::
  "nat list \<Rightarrow> nat \<Rightarrow> real \<Rightarrow> real \<Rightarrow> error + real tensor" where
  "butterworth_low_pass_filter s n d_s d_t =
     (case trailing_dims s of
        Inl e \<Rightarrow> Inl e
      | Inr (T, H, W) \<Rightarrow>
          let mask = zeros s in
          if d_s = 0 \<or> d_t = 0 then Inr mask
          else Inr (loop_thw T H W
                 (\<lambda>t h w. 1 / (1 + (d_square d_s d_t T H W t h w / d_s\<^sup>2) ^ n)) mask))"

text \<open>
  The ideal filter compares \<^verbatim>\<open>d_square\<close> with \<^verbatim>\<open>d_s*2\<close>, so here the expression is
  evaluated as Python does, operation by operation in doubles: \<^verbatim>\<open>2*t\<close> is an integer,
  \<^verbatim>\<open>2*t/T\<close> the rounded quotient, and the sum is taken from the left.
\<close>

definition d_square_double ::
  "(real \<Rightarrow> real) \<Rightarrow> real \<Rightarrow> real \<Rightarrow> nat \<Rightarrow> nat \<Rightarrow> nat \<Rightarrow> nat \<Rightarrow> nat \<Rightarrow> nat \<Rightarrow> real" where
  "d_square_double sq d_s d_t T H W t h w =
     fadd (fadd (sq (fmul (fdiv d_s d_t) (fsub (fdiv (2 * real t) (real T)) 1)))
                (sq (fsub (fdiv (2 * real h) (real H)) 1)))
          (sq (fsub (fdiv (2 * real w) (real W)) 1))"

definition ideal_low_pass_filter ::
  "(real \<Rightarrow> real) \<Rightarrow> nat list \<Rightarrow> real \<Rightarrow> real \<Rightarrow> error + real tensor" where
  "ideal_low_pass_filter sq s d_s d_t =
     (case trailing_dims s of
        Inl e \<Rightarrow> Inl e
      | Inr (T, H, W) \<Rightarrow>
          let mask = zeros s in
          if d_s = 0 \<or> d_t = 0 then Inr mask
          else Inr (loop_thw T H W
                 (\<lambda>t h w. if d_square_double sq d_s d_t T H W t h w \<le> fmul d_s 2 then 1 else 0)
                 mask))"

subsection \<open>The box filter\<close>

text \<open>
  A slice bound \<open>i\<close> on an axis of length \<open>len\<close>: a negative bound counts from the end, and
  the result is clamped to \<open>0..len\<close>.
\<close>

definition slice_bound :: "nat \<Rightarrow> int \<Rightarrow> int" where
  "slice_bound len i = (if i < 0 then max 0 (i + int len) else min i (int len))"

definition in_slice :: "nat \<Rightarrow> int \<Rightarrow> int \<Rightarrow> nat \<Rightarrow> bool" where
  "in_slice len start stop k = (slice_bound len start \<le> int k \<and> int k < slice_bound len stop)"

text \<open>\<^verbatim>\<open>mask[..., a1:b1, a2:b2, a3:b3] = v\<close> on a mask whose trailing dimensions are \<open>T, H, W\<close>.\<close>

definition set_slices ::
  "'a tensor \<Rightarrow> nat \<times> nat \<times> nat \<Rightarrow> int \<times> int \<Rightarrow> int \<times> int \<Rightarrow> int \<times> int \<Rightarrow> 'a \<Rightarrow> 'a tensor" where
  "set_slices m dims st sh sw v =
     (case dims of (T, H, W) \<Rightarrow>
        m\<lparr>elems := (\<lambda>idx.
          case last3 idx of
            None \<Rightarrow> elems m idx
          | Some (t, h, w) \<Rightarrow>
              if in_slice T (fst st) (snd st) t \<and> in_slice H (fst sh) (snd sh) h
                 \<and> in_slice W (fst sw) (snd sw) w
              then v else elems m idx)\<rparr>)"

definition box_low_pass_filter :: "nat list \<Rightarrow> real \<Rightarrow> real \<Rightarrow> error + real tensor" where
  "box_low_pass_filter s d_s d_t =
     (case trailing_dims s of
        Inl e \<Rightarrow> Inl e
      | Inr (T, H, W) \<Rightarrow>
          let mask = zeros s in
          if d_s = 0 \<or> d_t = 0 then Inr mask
          else
            let threshold_s = py_round (fmul (real (H div 2)) d_s);
                threshold_t = py_round (fmul (real (T div 2)) d_t);
                cframe = int (T div 2); crow = int (H div 2); ccol = int (W div 2)
            in Inr (set_slices mask (T, H, W)
                      (cframe - threshold_t, cframe + threshold_t)
                      (crow - threshold_s, crow + threshold_s)
                      (ccol - threshold_s, ccol + threshold_s) 1))"

text \<open>
  The block of the box filter in the words of the specification: on every axis the
  indices from \<open>center - threshold\<close> up to, and without, \<open>center + threshold\<close>, with
  \<open>threshold_t = round (floor (T / 2) * d_t)\<close> on the time axis and
  \<open>threshold_s = round (floor (H / 2) * d_s)\<close> on the height and the width axis.
\<close>

definition spec_threshold_t :: "nat \<Rightarrow> real \<Rightarrow> int" where
  "spec_threshold_t T d_t = py_round (real_of_int \<lfloor>real T / 2\<rfloor> * d_t)"

definition spec_threshold_s :: "nat \<Rightarrow> real \<Rightarrow> int" where
  "spec_threshold_s H d_s = py_round (real_of_int \<lfloor>real H / 2\<rfloor> * d_s)"

definition spec_box_block ::
  "nat \<times> nat \<times> nat \<Rightarrow> real \<Rightarrow> real \<Rightarrow> nat \<times> nat \<times> nat \<Rightarrow> bool" where
  "spec_box_block dims d_s d_t pos =
     (case dims of (T, H, W) \<Rightarrow> case pos of (t, h, w) \<Rightarrow>
        int (T div 2) - spec_threshold_t T d_t \<le> int t
        \<and> int t < int (T div 2) + spec_threshold_t T d_t
        \<and> int (H div 2) - spec_threshold_s H d_s \<le> int h
        \<and> int h < int (H div 2) + spec_threshold_s H d_s
        \<and> int (W div 2) - spec_threshold_s H d_s \<le> int w
        \<and> int w < int (W div 2) + spec_threshold_s H d_s)"

subsection \<open>Dispatch\<close>

text \<open>
  The filter parameters \<^verbatim>\<open>params.method\<close>, \<^verbatim>\<open>params.d_s\<close>, \<^verbatim>\<open>params.d_t\<close> and
  \<^verbatim>\<open>params.n\<close>.
\<close>

record params =
  param_method :: string
  param_d_s :: real
  param_d_t :: real
  param_n :: nat

text \<open>\<^verbatim>\<open>.to(device)\<close> moves the tensor and leaves its shape and entries as they are.\<close>

definition get_freq_filter ::
  "(real \<Rightarrow> real) \<Rightarrow> nat list \<Rightarrow> params \<Rightarrow> error + real tensor" where
  "get_freq_filter sq s p =
     (if param_method p = ''gaussian'' then
        gaussian_low_pass_filter s (param_d_s p) (param_d_t p)
      else if param_method p = ''ideal'' then
        ideal_low_pass_filter sq s (param_d_s p) (param_d_t p)
      else if param_method p = ''box'' then
        box_low_pass_filter s (param_d_s p) (param_d_t p)
      else if param_method p = ''butterworth'' then
        butterworth_low_pass_filter s (param_n p) (param_d_s p) (param_d_t p)
      else Inl NotImplementedError)"

text \<open>The shape and an entry of a returned tensor; an error is passed on.\<close>

definition result_shape :: "error + 'a tensor \<Rightarrow> error + nat list" where
  "result_shape r = (case r of Inl e \<Rightarrow> Inl e | Inr m \<Rightarrow> Inr (shape m))"

definition result_at :: "error + 'a tensor \<Rightarrow> nat list \<Rightarrow> error + 'a" where
  "result_at r idx = (case r of Inl e \<Rightarrow> Inl e | Inr m \<Rightarrow> Inr (elems m idx))"

subsection \<open>Spectral mixing\<close>

text \<open>
  The tensor operations that \<^verbatim>\<open>freq_mix_3d\<close> calls are those of torch, modelled after
  their documentation in exact arithmetic. \<^verbatim>\<open>torch.ones(shape)\<close> is the mask of ones.
\<close>

definition ones :: "nat list \<Rightarrow> real tensor" where
  "ones s = \<lparr>shape = s, elems = (\<lambda>idx. 1)\<rparr>"

text \<open>The components of a multi-index before the last three.\<close>

definition leading :: "nat list \<Rightarrow> nat list" where
  "leading idx = take (length idx - 3) idx"

text \<open>
  \<^verbatim>\<open>fft.fftn(x, dim=(-3, -2, -1))\<close>: the discrete Fourier transform over the last three
  axes, without normalisation. A tensor of fewer than three dimensions has no axis \<open>-3\<close>,
  and an axis of length 0 cannot be transformed.
\<close>

definition fftn :: "real tensor \<Rightarrow> error + complex tensor" where
  "fftn x =
     (case trailing_dims (shape x) of
        Inl e \<Rightarrow> Inl e
      | Inr (T, H, W) \<Rightarrow>
          if T = 0 \<or> H = 0 \<or> W = 0 then Inl RuntimeError
          else Inr \<lparr>shape = shape x, elems = (\<lambda>idx.
            case last3 idx of
              None \<Rightarrow> 0
            | Some (k1, k2, k3) \<Rightarrow>
                (\<Sum>t<T. \<Sum>h<H. \<Sum>w<W.
                   complex_of_real (elems x (leading idx @ [t, h, w]))
                   * cis (- 2 * pi * (real k1 * real t / real T + real k2 * real h / real H
                                       + real k3 * real w / real W))))\<rparr>)"

text \<open>
  \<^verbatim>\<open>fft.ifftn(x, dim=(-3, -2, -1))\<close>: the inverse transform, normalised by the number
  \<open>T * H * W\<close> of points.
\<close>

definition ifftn :: "complex tensor \<Rightarrow> error + complex tensor" where
  "ifftn x =
     (case trailing_dims (shape x) of
        Inl e \<Rightarrow> Inl e
      | Inr (T, H, W) \<Rightarrow>
          if T = 0 \<or> H = 0 \<or> W = 0 then Inl RuntimeError
          else Inr \<lparr>shape = shape x, elems = (\<lambda>idx.
            case last3 idx of
              None \<Rightarrow> 0
            | Some (t, h, w) \<Rightarrow>
                (\<Sum>k1<T. \<Sum>k2<H. \<Sum>k3<W.
                   elems x (leading idx @ [k1, k2, k3])
                   * cis (2 * pi * (real k1 * real t / real T + real k2 * real h / real H
                                     + real k3 * real w / real W)))
                / of_nat (T * H * W))\<rparr>)"

text \<open>
  \<^verbatim>\<open>torch.roll\<close> by \<open>s\<close> along an axis of length \<open>len\<close> moves the entry at \<open>i\<close> to
  \<open>(i + s) mod len\<close>; the entry at \<open>j\<close> of the result is read at \<open>(j - s) mod len\<close>.
\<close>

definition rolled :: "nat \<Rightarrow> nat \<Rightarrow> nat \<Rightarrow> nat" where
  "rolled len s j = (j + len - s mod len) mod len"

definition roll3 :: "(nat \<Rightarrow> nat) \<Rightarrow> 'a tensor \<Rightarrow> error + 'a tensor" where
  "roll3 amount x =
     (case trailing_dims (shape x) of
        Inl e \<Rightarrow> Inl e
      | Inr (T, H, W) \<Rightarrow>
          Inr \<lparr>shape = shape x, elems = (\<lambda>idx.
            case last3 idx of
              None \<Rightarrow> elems x idx
            | Some (t, h, w) \<Rightarrow>
                elems x (leading idx @ [rolled T (amount T) t, rolled H (amount H) h,
                                         rolled W (amount W) w]))\<rparr>)"

text \<open>
  \<^verbatim>\<open>fft.fftshift(x, dim=(-3, -2, -1))\<close> rolls every axis by half its length, rounded
  down; \<^verbatim>\<open>fft.ifftshift\<close> rolls by half the length, rounded up.
\<close>

definition fftshift :: "'a tensor \<Rightarrow> error + 'a tensor" where
  "fftshift x = roll3 (\<lambda>len. len div 2) x"

definition ifftshift :: "'a tensor \<Rightarrow> error + 'a tensor" where
  "ifftshift x = roll3 (\<lambda>len. (len + 1) div 2) x"

text \<open>
  Broadcasting of two shapes, read from the last dimension: two sizes go together when
  they are equal or one of them is 1, and a missing dimension counts as 1.
\<close>

fun broadcast_rev :: "nat list \<Rightarrow> nat list \<Rightarrow> nat list option" where
  "broadcast_rev [] ys = Some ys"
| "broadcast_rev (x # xs) [] = Some (x # xs)"
| "broadcast_rev (x # xs) (y # ys) =
     (if x = y \<or> y = 1 then map_option (\<lambda>r. x # r) (broadcast_rev xs ys)
      else if x = 1 then map_option (\<lambda>r. y # r) (broadcast_rev xs ys)
      else None)"

definition broadcast_shapes :: "nat list \<Rightarrow> nat list \<Rightarrow> nat list option" where
  "broadcast_shapes a b = map_option rev (broadcast_rev (rev a) (rev b))"

text \<open>
  The index at which an operand of shape \<open>s\<close> is read for the index \<open>idx\<close> of the broadcast
  result: its own trailing dimensions, with index 0 along a dimension of size 1.
\<close>

definition operand_index :: "nat list \<Rightarrow> nat list \<Rightarrow> nat list" where
  "operand_index s idx =
     map2 (\<lambda>len i. if len = 1 then 0 else i) s (drop (length idx - length s) idx)"

definition broadcast2 ::
  "('a \<Rightarrow> 'b \<Rightarrow> 'c) \<Rightarrow> 'a tensor \<Rightarrow> 'b tensor \<Rightarrow> error + 'c tensor" where
  "broadcast2 f a b =
     (case broadcast_shapes (shape a) (shape b) of
        None \<Rightarrow> Inl RuntimeError
      | Some s \<Rightarrow>
          Inr \<lparr>shape = s, elems = (\<lambda>idx.
            f (elems a (operand_index (shape a) idx))
              (elems b (operand_index (shape b) idx)))\<rparr>)"

text \<open>\<^verbatim>\<open>1 - LPF\<close>, the product of a complex and a real tensor, the sum, and \<^verbatim>\<open>.real\<close>.\<close>

definition rsub_scalar :: "real \<Rightarrow> real tensor \<Rightarrow> real tensor" where
  "rsub_scalar c x = \<lparr>shape = shape x, elems = (\<lambda>idx. c - elems x idx)\<rparr>"

definition tensor_mul :: "complex tensor \<Rightarrow> real tensor \<Rightarrow> error + complex tensor" where
  "tensor_mul a b = broadcast2 (\<lambda>z r. z * complex_of_real r) a b"

definition tensor_add :: "complex tensor \<Rightarrow> complex tensor \<Rightarrow> error + complex tensor" where
  "tensor_add a b = broadcast2 (\<lambda>z1 z2. z1 + z2) a b"

definition real_part :: "complex tensor \<Rightarrow> real tensor" where
  "real_part x = \<lparr>shape = shape x, elems = (\<lambda>idx. Re (elems x idx))\<rparr>"

text \<open>An exception ends the function: the rest runs on a result only.\<close>

definition and_then :: "error + 'a \<Rightarrow> ('a \<Rightarrow> error + 'b) \<Rightarrow> error + 'b" where
  "and_then r f = (case r of Inl e \<Rightarrow> Inl e | Inr v \<Rightarrow> f v)"

definition freq_mix_3d :: "real tensor \<Rightarrow> real tensor \<Rightarrow> real tensor \<Rightarrow> error + real tensor" where
  "freq_mix_3d x noise LPF =
     and_then (fftn x) (\<lambda>x_freq.
     and_then (fftshift x_freq) (\<lambda>x_freq.
     and_then (fftn noise) (\<lambda>noise_freq.
     and_then (fftshift noise_freq) (\<lambda>noise_freq.
       let HPF = rsub_scalar 1 LPF in
     and_then (tensor_mul x_freq LPF) (\<lambda>x_freq_low.
     and_then (tensor_mul noise_freq HPF) (\<lambda>noise_freq_high.
     and_then (tensor_add x_freq_low noise_freq_high) (\<lambda>x_freq_mixed.
     and_then (ifftshift x_freq_mixed) (\<lambda>x_freq_mixed.
     and_then (ifftn x_freq_mixed) (\<lambda>x_mixed.
       Inr (real_part x_mixed))))))))))"

text \<open>Two tensors agree on a shape when they have the same entry at every index inside it.\<close>

definition agree_on :: "nat list \<Rightarrow> 'a tensor \<Rightarrow> 'a tensor \<Rightarrow> bool" where
  "agree_on s a b = (\<forall>idx. valid_index s idx \<longrightarrow> elems a idx = elems b idx)"

section \<open>Properties of the filters\<close>

subsection \<open>Rounding to a double\<close>

lemma bitlen_numeral_eval [simp]:
  "bitlen 1 = 1"
  "bitlen (numeral (Num.Bit0 k)) = bitlen (numeral k) + 1"
  "bitlen (numeral (Num.Bit1 k)) = bitlen (numeral k) + 1"
proof -
  show "bitlen 1 = 1" by (simp add: compute_bitlen [of 1])
  have "bitlen (numeral (Num.Bit0 k)) = bitlen (numeral (Num.Bit0 k) div 2) + 1"
    by (subst compute_bitlen) simp
  then show "bitlen (numeral (Num.Bit0 k)) = bitlen (numeral k) + 1" by simp
  have "bitlen (numeral (Num.Bit1 k)) = bitlen (numeral (Num.Bit1 k) div 2) + 1"
    by (subst compute_bitlen) simp
  then show "bitlen (numeral (Num.Bit1 k)) = bitlen (numeral k) + 1" by simp
qed


lemma nearest_even_of_int [simp]: "nearest_even (real_of_int n) = n"
  by (simp add: nearest_even_def)






text \<open>The definitions that evaluate an operation on doubles at given numbers.\<close>

lemmas double_eval = fadd_def fsub_def fmul_def fdiv_def square_rounded_def
  round_double_def exponent_def nearest_even_def

subsection \<open>Tensor updates and the triple loop\<close>

lemma last3_append [simp]: "last3 (lead @ [t, h, w]) = Some (t, h, w)"
  by (simp add: last3_def nth_append)

lemma shape_set_thw [simp]: "shape (set_thw m t h w v) = shape m"
  by (simp add: set_thw_def)

lemma elems_set_thw [simp]:
  "elems (set_thw m t h w v) idx = (if last3 idx = Some (t, h, w) then v else elems m idx)"
  by (simp add: set_thw_def)

lemma loop_w:
  "elems (fold (\<lambda>w m. set_thw m t h w (g w)) [0..<W] m0) idx =
     (case last3 idx of
        Some (t', h', w') \<Rightarrow> if t' = t \<and> h' = h \<and> w' < W then g w' else elems m0 idx
      | None \<Rightarrow> elems m0 idx)"
  by (induction W) (auto split: option.splits)

lemma loop_w_shape:
  "shape (fold (\<lambda>w m. set_thw m t h w (g w)) [0..<W] m0) = shape m0"
  by (induction W) auto

lemma loop_h:
  "elems (fold (\<lambda>h m. fold (\<lambda>w m. set_thw m t h w (g h w)) [0..<W] m) [0..<H] m0) idx =
     (case last3 idx of
        Some (t', h', w') \<Rightarrow> if t' = t \<and> h' < H \<and> w' < W then g h' w' else elems m0 idx
      | None \<Rightarrow> elems m0 idx)"
  by (induction H) (auto simp: loop_w split: option.splits)

lemma loop_h_shape:
  "shape (fold (\<lambda>h m. fold (\<lambda>w m. set_thw m t h w (g h w)) [0..<W] m) [0..<H] m0) = shape m0"
  by (induction H) (auto simp: loop_w_shape)

lemma elems_loop_thw:
  "elems (loop_thw T H W f m0) idx =
     (case last3 idx of
        Some (t, h, w) \<Rightarrow> if t < T \<and> h < H \<and> w < W then f t h w else elems m0 idx
      | None \<Rightarrow> elems m0 idx)"
  unfolding loop_thw_def
  by (induction T) (auto simp: loop_h split: option.splits)

lemma shape_loop_thw [simp]: "shape (loop_thw T H W f m0) = shape m0"
  unfolding loop_thw_def
  by (induction T) (auto simp: loop_h_shape)

lemma shape_zeros [simp]: "shape (zeros s) = s"
  by (simp add: zeros_def)

lemma elems_zeros [simp]: "elems (zeros s) idx = 0"
  by (simp add: zeros_def)

lemma valid_index_length: "valid_index s idx \<Longrightarrow> length idx = length s"
  by (simp add: valid_index_def list_all2_lengthD)

lemma valid_index_last3:
  assumes "valid_index s idx" and "trailing_dims s = Inr (T, H, W)"
    and "last3 idx = Some (t, h, w)"
  shows "t < T \<and> h < H \<and> w < W"
proof -
  have len: "length idx = length s" and nth: "\<And>i. i < length idx \<Longrightarrow> idx ! i < s ! i"
    using assms(1) by (simp_all add: valid_index_def list_all2_conv_all_nth)
  have n3: "3 \<le> length s"
    using assms(2) by (simp add: trailing_dims_def Let_def split: if_splits)
  have T: "T = s ! (length s - 3)" and H: "H = s ! (length s - 2)" and W: "W = s ! (length s - 1)"
    using assms(2) by (simp_all add: trailing_dims_def Let_def split: if_splits)
  have t: "t = idx ! (length s - 3)" and h: "h = idx ! (length s - 2)"
    and w: "w = idx ! (length s - 1)"
    using assms(3) len by (simp_all add: last3_def Let_def split: if_splits)
  show ?thesis
    using n3 len nth [of "length s - 3"] nth [of "length s - 2"] nth [of "length s - 1"]
    unfolding T H W t h w by simp
qed

lemma valid_index_last3_ex:
  assumes "valid_index s idx" and "trailing_dims s = Inr dims"
  shows "\<exists>pos. last3 idx = Some pos"
  using assms
  by (auto simp: valid_index_def trailing_dims_def last3_def Let_def
      dest: list_all2_lengthD split: if_splits)

subsection \<open>Values of the gaussian and the butterworth mask\<close>

text \<open>
  Claim C1. For a shape with trailing dimensions \<open>T\<close>, \<open>H\<close>, \<open>W\<close> and cutoffs \<open>d_s > 0\<close>,
  \<open>d_t > 0\<close>, the gaussian mask at every index whose last three components are
  \<open>(t, h, w)\<close> is \<open>exp (- d2 / (2 * d_s\<^sup>2))\<close> and the butterworth mask is
  \<open>1 / (1 + (d2 / d_s\<^sup>2) ^ n)\<close>, where
  \<open>d2 = ((d_s / d_t) * (2 t / T - 1))\<^sup>2 + (2 h / H - 1)\<^sup>2 + (2 w / W - 1)\<^sup>2\<close>.
\<close>

theorem gaussian_butterworth_values:
  assumes "trailing_dims s = Inr (T, H, W)" and "valid_index s idx"
    and "last3 idx = Some (t, h, w)" and "0 < d_s" and "0 < d_t"
  shows "let d2 = ((d_s / d_t) * (2 * real t / real T - 1))\<^sup>2 + (2 * real h / real H - 1)\<^sup>2
                    + (2 * real w / real W - 1)\<^sup>2
         in (\<exists>m. gaussian_low_pass_filter s d_s d_t = Inr m
                 \<and> elems m idx = exp (- d2 / (2 * d_s\<^sup>2)))
          \<and> (\<exists>m. butterworth_low_pass_filter s n d_s d_t = Inr m
                 \<and> elems m idx = 1 / (1 + (d2 / d_s\<^sup>2) ^ n))"
proof -
  have r: "t < T \<and> h < H \<and> w < W"
    using valid_index_last3 [OF assms(2) assms(1) assms(3)] .
  show ?thesis
    using assms r
    by (simp add: gaussian_low_pass_filter_def butterworth_low_pass_filter_def Let_def
        elems_loop_thw d_square_def)
qed

theorem gaussian_butterworth_values_witness:
  "(\<exists>m. gaussian_low_pass_filter [1, 1, 4, 4, 4] (1 / 4) (1 / 2) = Inr m
        \<and> elems m [0, 0, 1, 2, 3] = exp (- (5 / 2)))
   \<and> (\<exists>m. butterworth_low_pass_filter [1, 1, 4, 4, 4] 4 (1 / 4) (1 / 2) = Inr m
        \<and> elems m [0, 0, 1, 2, 3] = 1 / 626)"
  using gaussian_butterworth_values [of "[1, 1, 4, 4, 4]" 4 4 4 "[0, 0, 1, 2, 3]" 1 2 3
      "1 / 4" "1 / 2" 4]
  by (simp add: trailing_dims_def valid_index_def last3_def power2_eq_square field_simps)

subsection \<open>A zero cutoff\<close>

text \<open>
  Claim C2. For each of the four filters and every shape with at least three dimensions,
  a cutoff \<open>d_s = 0\<close> or \<open>d_t = 0\<close> returns the freshly allocated zero mask as it is, of
  the full shape and zero at every index: no entry is computed.
\<close>

theorem zero_cutoff_gives_zero_mask:
  assumes "3 \<le> length s" and "d_s = 0 \<or> d_t = 0"
  shows "gaussian_low_pass_filter s d_s d_t = Inr (zeros s)
       \<and> ideal_low_pass_filter sq s d_s d_t = Inr (zeros s)
       \<and> box_low_pass_filter s d_s d_t = Inr (zeros s)
       \<and> butterworth_low_pass_filter s n d_s d_t = Inr (zeros s)
       \<and> shape (zeros s) = s \<and> (\<forall>idx. elems (zeros s) idx = 0)"
  using assms
  by (auto simp: gaussian_low_pass_filter_def ideal_low_pass_filter_def
      box_low_pass_filter_def butterworth_low_pass_filter_def trailing_dims_def Let_def)

theorem zero_cutoff_gives_zero_mask_witness:
  "gaussian_low_pass_filter [1, 1, 4, 4, 4] 0 (1 / 4) = Inr (zeros [1, 1, 4, 4, 4])
   \<and> ideal_low_pass_filter square_rounded [1, 1, 4, 4, 4] 0 (1 / 4) = Inr (zeros [1, 1, 4, 4, 4])
   \<and> box_low_pass_filter [1, 1, 4, 4, 4] 0 (1 / 4) = Inr (zeros [1, 1, 4, 4, 4])
   \<and> butterworth_low_pass_filter [1, 1, 4, 4, 4] 4 0 (1 / 4) = Inr (zeros [1, 1, 4, 4, 4])
   \<and> elems (zeros [1, 1, 4, 4, 4]) [0, 0, 2, 2, 2] = 0"
  using zero_cutoff_gives_zero_mask [of "[1, 1, 4, 4, 4]" 0 "1 / 4" square_rounded 4]
  by simp

subsection \<open>The ideal mask\<close>

text \<open>
  The value of \<^verbatim>\<open>d_square\<close> in doubles for the shape \<open>(3, 6, 6)\<close>, \<open>d_s = d_t = 0.5\<close> and the
  index \<open>(1, 1, 1)\<close>, and the threshold \<^verbatim>\<open>d_s*2\<close> there. At these arguments the square is
  the correctly rounded one.
\<close>

lemma d_square_double_3_6_6:
  "d_square_double square_rounded (1 / 2) (1 / 2) 3 6 6 1 1 1
   = 4503599627370497 / 4503599627370496"
  by (simp add: d_square_double_def double_eval)

lemma fmul_half_2: "fmul (1 / 2) 2 = 1"
  by (simp add: double_eval)

text \<open>
  Claim C3 says that the entry of the ideal mask at \<open>(t, h, w)\<close> is 1 exactly when the
  squared distance \<open>d2\<close> of claim C1 is at most \<open>2 * d_s\<close>. The code compares the sum it
  has computed in doubles. For the shape \<open>(3, 6, 6)\<close>, \<open>d_s = d_t = 0.5\<close> and the index
  \<open>(1, 1, 1)\<close> the squared distance is \<open>1/9 + 4/9 + 4/9 = 1 = 2 * d_s\<close>, the computed sum
  is \<open>1 + 2 ^ -52\<close>, and the entry is 0.
\<close>

theorem ideal_exact_distance_counterexample:
  "((1 / 2) / (1 / 2) * (2 * real 1 / real 3 - 1))\<^sup>2 + (2 * real 1 / real 6 - 1)\<^sup>2
       + (2 * real 1 / real 6 - 1)\<^sup>2 \<le> 2 * (1 / 2 :: real)
   \<and> result_at (ideal_low_pass_filter square_rounded [3, 6, 6] (1 / 2) (1 / 2)) [1, 1, 1] = Inr 0"
  by (simp add: result_at_def ideal_low_pass_filter_def trailing_dims_def Let_def
      elems_loop_thw last3_def d_square_double_3_6_6 [unfolded One_nat_def] fmul_half_2
      power2_eq_square)

text \<open>
  Claim C3, amended. For a shape with trailing dimensions \<open>T\<close>, \<open>H\<close>, \<open>W\<close> and cutoffs
  \<open>d_s > 0\<close>, \<open>d_t > 0\<close>, every entry of the ideal mask is 0 or 1, and the entry at an index
  whose last three components are \<open>(t, h, w)\<close> is 1 exactly when the value of
  \<^verbatim>\<open>d_square\<close> that the code computes in doubles (every quotient, difference, product,
  square and sum rounded, whatever the last bit of the library's square) is at most the
  double \<^verbatim>\<open>d_s*2\<close>.
\<close>

theorem ideal_mask_binary:
  assumes "trailing_dims s = Inr (T, H, W)" and "valid_index s idx"
    and "last3 idx = Some (t, h, w)" and "0 < d_s" and "0 < d_t"
  shows "let ct = fsub (fdiv (2 * real t) (real T)) 1;
             ch = fsub (fdiv (2 * real h) (real H)) 1;
             cw = fsub (fdiv (2 * real w) (real W)) 1;
             d2 = fadd (fadd (sq (fmul (fdiv d_s d_t) ct)) (sq ch)) (sq cw)
         in \<exists>m. ideal_low_pass_filter sq s d_s d_t = Inr m
               \<and> (\<forall>i. elems m i = 0 \<or> elems m i = 1)
               \<and> (elems m idx = 1 \<longleftrightarrow> d2 \<le> fmul d_s 2)"
proof -
  have r: "t < T \<and> h < H \<and> w < W"
    using valid_index_last3 [OF assms(2) assms(1) assms(3)] .
  show ?thesis
    using assms r
    by (auto simp: ideal_low_pass_filter_def Let_def elems_loop_thw d_square_double_def
        split: option.splits)
qed

theorem ideal_mask_binary_witness:
  "\<exists>m. ideal_low_pass_filter square_rounded [1, 1, 4, 4, 4] (1 / 4) (1 / 2) = Inr m
      \<and> (\<forall>i. elems m i = 0 \<or> elems m i = 1)
      \<and> elems m [0, 0, 1, 2, 3] = 1 \<and> elems m [0, 0, 1, 0, 0] = 0"
  using ideal_mask_binary [of "[1, 1, 4, 4, 4]" 4 4 4 "[0, 0, 1, 2, 3]" 1 2 3 "1 / 4" "1 / 2"
      square_rounded]
    ideal_mask_binary [of "[1, 1, 4, 4, 4]" 4 4 4 "[0, 0, 1, 0, 0]" 1 0 0 "1 / 4" "1 / 2"
      square_rounded]
  by (simp add: trailing_dims_def valid_index_def last3_def double_eval) force

subsection \<open>The box mask\<close>

lemma shape_set_slices [simp]: "shape (set_slices m dims st sh sw v) = shape m"
  by (cases dims) (simp add: set_slices_def)

lemma elems_set_slices:
  "elems (set_slices m (T, H, W) (a1, b1) (a2, b2) (a3, b3) v) idx =
     (case last3 idx of
        None \<Rightarrow> elems m idx
      | Some (t, h, w) \<Rightarrow>
          if in_slice T a1 b1 t \<and> in_slice H a2 b2 h \<and> in_slice W a3 b3 w then v
          else elems m idx)"
  by (simp add: set_slices_def split: option.splits)

lemma in_slice_empty [simp]: "\<not> in_slice len a a k"
  by (simp add: in_slice_def)

lemma set_slices_empty_t [simp]: "set_slices m dims (a, a) sh sw v = m"
  by (cases dims) (simp add: set_slices_def fun_eq_iff split: option.splits)

lemma set_slices_empty_h [simp]: "set_slices m dims st (a, a) sw v = m"
  by (cases dims) (simp add: set_slices_def fun_eq_iff split: option.splits)

lemma floor_half: "real_of_int \<lfloor>real T / 2\<rfloor> = real (T div 2)"
  by (metis floor_divide_of_nat_eq of_int_of_nat_eq of_nat_numeral)

lemma spec_threshold_t_eq: "spec_threshold_t T d = py_round (real (T div 2) * d)"
  by (simp add: spec_threshold_t_def floor_half)

lemma spec_threshold_s_eq: "spec_threshold_s H d = py_round (real (H div 2) * d)"
  by (simp add: spec_threshold_s_def floor_half)


text \<open>The thresholds of the box filter at the inputs used below.\<close>

lemma threshold_2_quarter: "py_round (fmul 2 (1 / 4)) = 0"
  by (simp add: py_round_def double_eval)

lemma threshold_4_three_quarters: "py_round (fmul 4 (3 / 4)) = 3"
  by (simp add: py_round_def double_eval)

lemma threshold_2_half: "py_round (fmul 2 (1 / 2)) = 1"
  by (simp add: py_round_def double_eval)

lemma py_round_half: "py_round (1 / 2) = 0"
  by (simp add: py_round_def nearest_even_def)

text \<open>
  Claim C4 says that for all positive cutoffs the box mask is 1 exactly on the block
  \<open>[center - threshold, center + threshold)\<close> of every axis and 0 elsewhere. The code
  writes the block with one slice assignment, and a lower bound below zero is a negative
  slice bound, which Python counts from the end of the axis. For the shape
  \<open>(1, 1, 4, 8, 4)\<close> with \<open>d_s = 0.75\<close> and \<open>d_t = 0.5\<close> the thresholds are 3 and 1 and the
  width slice is \<open>-1:5\<close>, the single index 3: the entries at \<open>(t, h, w) = (1, 1, 0)\<close> and at
  the centre \<open>(2, 4, 2)\<close> lie in the block of the claim and are 0, and only the column
  \<open>w = 3\<close> is set.
\<close>

theorem box_negative_slice_bound:
  "spec_box_block (4, 8, 4) (3 / 4) (1 / 2) (1, 1, 0)
   \<and> result_at (box_low_pass_filter [1, 1, 4, 8, 4] (3 / 4) (1 / 2)) [0, 0, 1, 1, 0] = Inr 0
   \<and> spec_box_block (4, 8, 4) (3 / 4) (1 / 2) (2, 4, 2)
   \<and> result_at (box_low_pass_filter [1, 1, 4, 8, 4] (3 / 4) (1 / 2)) [0, 0, 2, 4, 2] = Inr 0
   \<and> result_at (box_low_pass_filter [1, 1, 4, 8, 4] (3 / 4) (1 / 2)) [0, 0, 2, 4, 3] = Inr 1"
proof -
  have spec: "spec_threshold_t 4 (1 / 2) = 1" "spec_threshold_s 8 (3 / 4) = 3"
    by (simp_all add: spec_threshold_t_eq spec_threshold_s_eq py_round_def nearest_even_def)
  show ?thesis
    by (simp add: result_at_def box_low_pass_filter_def trailing_dims_def Let_def
        elems_set_slices last3_def threshold_4_three_quarters threshold_2_half
        in_slice_def slice_bound_def spec_box_block_def spec)
qed

text \<open>
  Claim C9 gives, for the shape \<open>(1, 1, 4, 4, 4)\<close> and \<open>d_s = d_t = 0.25\<close>, the thresholds
  \<open>round (2 * 0.25) = 1\<close> and a block of ones on the indices 1 and 2 of every axis.
  Python rounds the tie 0.5 to the even integer 0, and the entry at \<open>(1, 1, 1)\<close> is 0.
\<close>

theorem box_example_counterexample:
  "py_round (real (4 div 2) * (1 / 4)) \<noteq> 1
   \<and> result_at (box_low_pass_filter [1, 1, 4, 4, 4] (1 / 4) (1 / 4)) [0, 0, 1, 1, 1] \<noteq> Inr 1"
  by (simp add: result_at_def box_low_pass_filter_def trailing_dims_def Let_def
      threshold_2_quarter py_round_half)

text \<open>
  Claim C9, amended: for the shape \<open>(1, 1, 4, 4, 4)\<close> and \<open>d_s = d_t = 0.25\<close> both
  thresholds are \<open>round (2 * 0.25) = 0\<close>, and the box filter returns the zero mask.
\<close>

theorem box_example_all_zero:
  "py_round (real (4 div 2) * (1 / 4)) = 0
   \<and> box_low_pass_filter [1, 1, 4, 4, 4] (1 / 4) (1 / 4) = Inr (zeros [1, 1, 4, 4, 4])
   \<and> result_at (box_low_pass_filter [1, 1, 4, 4, 4] (1 / 4) (1 / 4)) [0, 0, 1, 1, 1] = Inr 0"
  by (simp add: result_at_def box_low_pass_filter_def trailing_dims_def Let_def
      threshold_2_quarter py_round_half)



subsection \<open>Dispatch on the method\<close>

text \<open>
  Claim C7. A method that is none of gaussian, ideal, box and butterworth makes
  \<open>get_freq_filter\<close> fail with \<open>NotImplementedError\<close> and nothing else; each of the four
  names gives the result of the filter of that name, which for a shape with at least
  three dimensions is a mask and no error.
\<close>

theorem get_freq_filter_dispatch:
  "(param_method p \<notin> {''gaussian'', ''ideal'', ''box'', ''butterworth''}
      \<longrightarrow> get_freq_filter sq s p = Inl NotImplementedError)
   \<and> (param_method p = ''gaussian'' \<longrightarrow>
        get_freq_filter sq s p = gaussian_low_pass_filter s (param_d_s p) (param_d_t p))
   \<and> (param_method p = ''ideal'' \<longrightarrow>
        get_freq_filter sq s p = ideal_low_pass_filter sq s (param_d_s p) (param_d_t p))
   \<and> (param_method p = ''box'' \<longrightarrow>
        get_freq_filter sq s p = box_low_pass_filter s (param_d_s p) (param_d_t p))
   \<and> (param_method p = ''butterworth'' \<longrightarrow>
        get_freq_filter sq s p
          = butterworth_low_pass_filter s (param_n p) (param_d_s p) (param_d_t p))
   \<and> (param_method p \<in> {''gaussian'', ''ideal'', ''box'', ''butterworth''} \<and> 3 \<le> length s
      \<longrightarrow> (\<exists>m. get_freq_filter sq s p = Inr m))"
  by (auto simp: get_freq_filter_def gaussian_low_pass_filter_def ideal_low_pass_filter_def
      box_low_pass_filter_def butterworth_low_pass_filter_def trailing_dims_def Let_def)

theorem get_freq_filter_dispatch_witness:
  "get_freq_filter square_rounded [1, 1, 4, 4, 4]
     \<lparr>param_method = ''median'', param_d_s = 1 / 4, param_d_t = 1 / 4, param_n = 4\<rparr>
     = Inl NotImplementedError
   \<and> get_freq_filter square_rounded [1, 1, 4, 4, 4]
     \<lparr>param_method = ''gaussian'', param_d_s = 1 / 4, param_d_t = 1 / 4, param_n = 4\<rparr>
     = gaussian_low_pass_filter [1, 1, 4, 4, 4] (1 / 4) (1 / 4)
   \<and> get_freq_filter square_rounded [1, 1, 4, 4, 4]
     \<lparr>param_method = ''ideal'', param_d_s = 1 / 4, param_d_t = 1 / 4, param_n = 4\<rparr>
     = ideal_low_pass_filter square_rounded [1, 1, 4, 4, 4] (1 / 4) (1 / 4)
   \<and> get_freq_filter square_rounded [1, 1, 4, 4, 4]
     \<lparr>param_method = ''box'', param_d_s = 1 / 4, param_d_t = 1 / 4, param_n = 4\<rparr>
     = box_low_pass_filter [1, 1, 4, 4, 4] (1 / 4) (1 / 4)
   \<and> get_freq_filter square_rounded [1, 1, 4, 4, 4]
     \<lparr>param_method = ''butterworth'', param_d_s = 1 / 4, param_d_t = 1 / 4, param_n = 4\<rparr>
     = butterworth_low_pass_filter [1, 1, 4, 4, 4] 4 (1 / 4) (1 / 4)
   \<and> (\<exists>m. get_freq_filter square_rounded [1, 1, 4, 4, 4]
     \<lparr>param_method = ''box'', param_d_s = 1 / 4, param_d_t = 1 / 4, param_n = 4\<rparr> = Inr m)"
  using get_freq_filter_dispatch [of
      "\<lparr>param_method = ''median'', param_d_s = 1 / 4, param_d_t = 1 / 4, param_n = 4\<rparr>"
      square_rounded "[1, 1, 4, 4, 4]"]
    get_freq_filter_dispatch [of
      "\<lparr>param_method = ''gaussian'', param_d_s = 1 / 4, param_d_t = 1 / 4, param_n = 4\<rparr>"
      square_rounded "[1, 1, 4, 4, 4]"]
    get_freq_filter_dispatch [of
      "\<lparr>param_method = ''ideal'', param_d_s = 1 / 4, param_d_t = 1 / 4, param_n = 4\<rparr>"
      square_rounded "[1, 1, 4, 4, 4]"]
    get_freq_filter_dispatch [of
      "\<lparr>param_method = ''box'', param_d_s = 1 / 4, param_d_t = 1 / 4, param_n = 4\<rparr>"
      square_rounded "[1, 1, 4, 4, 4]"]
    get_freq_filter_dispatch [of
      "\<lparr>param_method = ''butterworth'', param_d_s = 1 / 4, param_d_t = 1 / 4, param_n = 4\<rparr>"
      square_rounded "[1, 1, 4, 4, 4]"]
  by simp metis

subsection \<open>The shape of the mask\<close>

text \<open>
  Claim C8 says that the mask for a shape \<open>(B, C, T, H, W)\<close> has the shape \<open>(T, H, W)\<close>.
  Every filter allocates \<^verbatim>\<open>torch.zeros(shape)\<close> and returns that tensor: for
  \<open>(1, 1, 4, 4, 4)\<close> the mask has five dimensions.
\<close>

theorem mask_shape_counterexample:
  "result_shape (get_freq_filter square_rounded [1, 1, 4, 4, 4]
     \<lparr>param_method = ''gaussian'', param_d_s = 1 / 4, param_d_t = 1 / 4, param_n = 4\<rparr>)
   \<noteq> Inr [4, 4, 4]"
  by (simp add: result_shape_def get_freq_filter_def gaussian_low_pass_filter_def
      trailing_dims_def Let_def)

lemma last3_five [simp]: "last3 [b, c, t, h, w] = Some (t, h, w)"
  by (simp add: last3_def)

lemma trailing_dims_five [simp]: "trailing_dims [B, C, T, H, W] = Inr (T, H, W)"
  by (simp add: trailing_dims_def)

text \<open>
  Claim C8, amended: for every shape \<open>(B, C, T, H, W)\<close> and every recognized method the
  returned mask has the full shape \<open>(B, C, T, H, W)\<close>, and its entry at an index depends
  only on the last three components \<open>(t, h, w)\<close> of the index.
\<close>

theorem mask_has_full_shape:
  assumes "param_method p \<in> {''gaussian'', ''ideal'', ''box'', ''butterworth''}"
  shows "\<exists>m. get_freq_filter sq [B, C, T, H, W] p = Inr m
           \<and> shape m = [B, C, T, H, W]
           \<and> (\<forall>b c b' c' t h w. elems m [b, c, t, h, w] = elems m [b', c', t, h, w])"
  using assms
  by (auto simp: get_freq_filter_def gaussian_low_pass_filter_def
      ideal_low_pass_filter_def box_low_pass_filter_def butterworth_low_pass_filter_def
      Let_def elems_loop_thw elems_set_slices)

theorem mask_has_full_shape_witness:
  "\<exists>m. get_freq_filter square_rounded [2, 3, 4, 4, 4]
         \<lparr>param_method = ''gaussian'', param_d_s = 1 / 4, param_d_t = 1 / 4, param_n = 4\<rparr>
       = Inr m
      \<and> shape m = [2, 3, 4, 4, 4]
      \<and> elems m [0, 0, 1, 2, 3] = elems m [1, 2, 1, 2, 3]"
  using mask_has_full_shape [of
      "\<lparr>param_method = ''gaussian'', param_d_s = 1 / 4, param_d_t = 1 / 4, param_n = 4\<rparr>"
      square_rounded 2 3 4 4 4]
  by simp metis

section \<open>Properties of spectral mixing\<close>

subsection \<open>The inverse transform undoes the transform\<close>

lemma cis_eq_one_imp:
  assumes "cis x = 1"
  shows "\<exists>m::int. x = of_int m * (2 * pi)"
proof -
  have "cos x = 1" using assms by (simp add: complex_eq_iff)
  then show ?thesis by (auto simp: cos_one_2pi_int mult.assoc)
qed

lemma root_of_unity_neq_one:
  assumes "j < n" and "m < n" and "j \<noteq> m"
  shows "cis (2 * pi * (real j - real m) / real n) \<noteq> 1"
proof
  assume "cis (2 * pi * (real j - real m) / real n) = 1"
  then obtain q :: int where q: "2 * pi * (real j - real m) / real n = of_int q * (2 * pi)"
    using cis_eq_one_imp by blast
  have n: "0 < real n" using assms by simp
  have "2 * pi * ((real j - real m) / real n) = 2 * pi * of_int q"
    using q by (simp add: mult.commute)
  then have "(real j - real m) / real n = of_int q"
    by (simp only: mult_cancel_left) simp
  then have "real j - real m = of_int q * real n"
    using n by (simp add: field_simps)
  then have "real_of_int (int j - int m) = real_of_int (q * int n)"
    by simp
  then have eq: "int j - int m = q * int n"
    by (simp only: of_int_eq_iff)
  have "\<bar>int j - int m\<bar> < int n" using assms by linarith
  then have "\<bar>q\<bar> * int n < 1 * int n" using eq by (simp add: abs_mult)
  then have "\<bar>q\<bar> < 1" using n by (simp only: mult_less_cancel_right)
  then have "q = 0" by simp
  then show False using eq assms by simp
qed

lemma root_of_unity_sum:
  assumes "j < n" and "m < n"
  shows "(\<Sum>k<n. cis (- 2 * pi * (real k * real m / real n))
               * cis (2 * pi * (real k * real j / real n)))
         = (if m = j then of_nat n else 0)"
proof (cases "m = j")
  case True
  then show ?thesis by (simp add: cis_mult)
next
  case False
  define z where "z = cis (2 * pi * (real j - real m) / real n)"
  have z1: "z \<noteq> 1"
    unfolding z_def using root_of_unity_neq_one [OF assms] False by simp
  have n: "real n \<noteq> 0" using assms by simp
  have zn: "z ^ n = 1"
  proof -
    have "z ^ n = cis (real n * (2 * pi * (real j - real m) / real n))"
      unfolding z_def by (simp add: DeMoivre)
    also have "real n * (2 * pi * (real j - real m) / real n) = 2 * pi * (real j - real m)"
      using n by simp
    also have "\<dots> = 2 * pi * of_int (int j - int m)"
      by simp
    also have "cis (2 * pi * of_int (int j - int m)) = 1"
      unfolding cis.code by (simp only: cos_int_2pin sin_int_2pin) (simp add: complex_eq_iff)
    finally show ?thesis .
  qed
  have summand: "cis (- 2 * pi * (real k * real m / real n)) * cis (2 * pi * (real k * real j / real n))
        = z ^ k" for k
  proof -
    have "z ^ k = cis (real k * (2 * pi * (real j - real m) / real n))"
      unfolding z_def by (simp add: DeMoivre)
    also have "real k * (2 * pi * (real j - real m) / real n)
        = - 2 * pi * (real k * real m / real n) + 2 * pi * (real k * real j / real n)"
      by (simp add: algebra_simps diff_divide_distrib)
    finally show ?thesis by (simp only: cis_mult)
  qed
  have "(\<Sum>k<n. z ^ k) = (z ^ n - 1) / (z - 1)"
    using z1 by (rule geometric_sum)
  then have "(\<Sum>k<n. z ^ k) = 0" using zn by simp
  then show ?thesis using False by (simp only: summand if_False)
qed

lemma dft_inverse_1d:
  assumes "j < n"
  shows "(\<Sum>k<n. (\<Sum>m<n. g m * cis (- 2 * pi * (real k * real m / real n)))
               * cis (2 * pi * (real k * real j / real n)))
         = of_nat n * (g j :: complex)"
proof -
  have "(\<Sum>k<n. (\<Sum>m<n. g m * cis (- 2 * pi * (real k * real m / real n)))
               * cis (2 * pi * (real k * real j / real n)))
      = (\<Sum>k<n. \<Sum>m<n. g m * (cis (- 2 * pi * (real k * real m / real n))
               * cis (2 * pi * (real k * real j / real n))))"
    by (simp add: sum_distrib_right mult.assoc)
  also have "\<dots> = (\<Sum>m<n. \<Sum>k<n. g m * (cis (- 2 * pi * (real k * real m / real n))
               * cis (2 * pi * (real k * real j / real n))))"
    by (rule sum.swap)
  also have "\<dots> = (\<Sum>m<n. g m * (\<Sum>k<n. cis (- 2 * pi * (real k * real m / real n))
               * cis (2 * pi * (real k * real j / real n))))"
    by (simp add: sum_distrib_left)
  also have "\<dots> = (\<Sum>m<n. g m * (if m = j then of_nat n else 0))"
    by (rule sum.cong [OF refl]) (simp only: root_of_unity_sum [OF assms] lessThan_iff)
  also have "\<dots> = (\<Sum>m<n. if m = j then g m * of_nat n else 0)"
    by (rule sum.cong [OF refl]) simp
  also have "\<dots> = g j * of_nat n"
    using assms by (simp add: sum.delta)
  finally show ?thesis by (simp add: mult.commute)
qed

lemma dft_inverse_1d_scaled:
  assumes "j < n"
  shows "(\<Sum>k<n. (\<Sum>m<n. g m * cis (- 2 * pi * (real k * real m / real n)))
               * (r * cis (2 * pi * (real k * real j / real n))))
         = r * (of_nat n * (g j :: complex))"
proof -
  have "(\<Sum>k<n. (\<Sum>m<n. g m * cis (- 2 * pi * (real k * real m / real n)))
               * (r * cis (2 * pi * (real k * real j / real n))))
      = (\<Sum>k<n. r * ((\<Sum>m<n. g m * cis (- 2 * pi * (real k * real m / real n)))
               * cis (2 * pi * (real k * real j / real n))))"
    by (rule sum.cong [OF refl]) (rule mult.left_commute)
  also have "\<dots> = r * (\<Sum>k<n. (\<Sum>m<n. g m * cis (- 2 * pi * (real k * real m / real n)))
               * cis (2 * pi * (real k * real j / real n)))"
    by (rule sum_distrib_left [symmetric])
  finally show ?thesis by (simp only: dft_inverse_1d [OF assms])
qed

lemma sum_reverse3:
  "(\<Sum>t\<in>A. \<Sum>h\<in>B. \<Sum>w\<in>C. f t h w) = (\<Sum>w\<in>C. \<Sum>h\<in>B. \<Sum>t\<in>A. (f t h w :: complex))"
proof -
  have "(\<Sum>t\<in>A. \<Sum>h\<in>B. \<Sum>w\<in>C. f t h w) = (\<Sum>t\<in>A. \<Sum>w\<in>C. \<Sum>h\<in>B. f t h w)"
    by (rule sum.cong [OF refl]) (rule sum.swap)
  also have "\<dots> = (\<Sum>w\<in>C. \<Sum>t\<in>A. \<Sum>h\<in>B. f t h w)"
    by (rule sum.swap)
  also have "\<dots> = (\<Sum>w\<in>C. \<Sum>h\<in>B. \<Sum>t\<in>A. f t h w)"
    by (rule sum.cong [OF refl]) (rule sum.swap)
  finally show ?thesis .
qed

lemma dft_inverse_3d:
  fixes X :: "nat \<Rightarrow> nat \<Rightarrow> nat \<Rightarrow> complex"
  assumes "t0 < T" and "h0 < H" and "w0 < W"
  shows "(\<Sum>k1<T. \<Sum>k2<H. \<Sum>k3<W.
            (\<Sum>t<T. \<Sum>h<H. \<Sum>w<W. X t h w
               * cis (- 2 * pi * (real k1 * real t / real T + real k2 * real h / real H
                                   + real k3 * real w / real W)))
            * cis (2 * pi * (real k1 * real t0 / real T + real k2 * real h0 / real H
                              + real k3 * real w0 / real W)))
         = of_nat (T * H * W) * X t0 h0 w0"
proof -
  define a where "a k t = cis (- 2 * pi * (real k * real t / real T))" for k t
  define b where "b k h = cis (- 2 * pi * (real k * real h / real H))" for k h
  define c where "c k w = cis (- 2 * pi * (real k * real w / real W))" for k w
  define a' where "a' k = cis (2 * pi * (real k * real t0 / real T))" for k
  define b' where "b' k = cis (2 * pi * (real k * real h0 / real H))" for k
  define c' where "c' k = cis (2 * pi * (real k * real w0 / real W))" for k
  have fwd: "cis (- 2 * pi * (real k1 * real t / real T + real k2 * real h / real H
                 + real k3 * real w / real W)) = a k1 t * b k2 h * c k3 w" for k1 k2 k3 t h w
    unfolding a_def b_def c_def by (simp add: cis_mult algebra_simps)
  have bwd: "cis (2 * pi * (real k1 * real t0 / real T + real k2 * real h0 / real H
                 + real k3 * real w0 / real W)) = a' k1 * b' k2 * c' k3" for k1 k2 k3
    unfolding a'_def b'_def c'_def by (simp add: cis_mult algebra_simps)
  define g2 where "g2 k1 h = (\<Sum>t<T. X t h w0 * a k1 t)" for k1 h
  define g3 where "g3 k1 k2 w = (\<Sum>h<H. (\<Sum>t<T. X t h w * a k1 t) * b k2 h)" for k1 k2 w
  have F: "(\<Sum>t<T. \<Sum>h<H. \<Sum>w<W. X t h w * (a k1 t * b k2 h * c k3 w))
         = (\<Sum>w<W. g3 k1 k2 w * c k3 w)" for k1 k2 k3
  proof -
    have "(\<Sum>t<T. \<Sum>h<H. \<Sum>w<W. X t h w * (a k1 t * b k2 h * c k3 w))
        = (\<Sum>w<W. \<Sum>h<H. \<Sum>t<T. X t h w * (a k1 t * b k2 h * c k3 w))"
      by (rule sum_reverse3)
    also have "\<dots> = (\<Sum>w<W. g3 k1 k2 w * c k3 w)"
      unfolding g3_def by (simp add: sum_distrib_right mult.assoc)
    finally show ?thesis .
  qed
  have s3: "(\<Sum>k3<W. (\<Sum>w<W. g3 k1 k2 w * c k3 w) * (a' k1 * b' k2 * c' k3))
          = a' k1 * b' k2 * (of_nat W * g3 k1 k2 w0)" for k1 k2
    unfolding c_def c'_def by (rule dft_inverse_1d_scaled [OF assms(3)])
  have s2: "(\<Sum>k2<H. a' k1 * b' k2 * (of_nat W * g3 k1 k2 w0))
          = a' k1 * of_nat W * (of_nat H * g2 k1 h0)" for k1
  proof -
    have "(\<Sum>k2<H. a' k1 * b' k2 * (of_nat W * g3 k1 k2 w0))
        = (\<Sum>k2<H. (\<Sum>h<H. g2 k1 h * b k2 h) * (a' k1 * of_nat W * b' k2))"
      unfolding g3_def g2_def by (rule sum.cong [OF refl]) (simp add: mult_ac)
    also have "\<dots> = a' k1 * of_nat W * (of_nat H * g2 k1 h0)"
      unfolding b_def b'_def by (rule dft_inverse_1d_scaled [OF assms(2)])
    finally show ?thesis .
  qed
  have s1: "(\<Sum>k1<T. a' k1 * of_nat W * (of_nat H * g2 k1 h0))
          = of_nat W * of_nat H * (of_nat T * X t0 h0 w0)"
  proof -
    have "(\<Sum>k1<T. a' k1 * of_nat W * (of_nat H * g2 k1 h0))
        = (\<Sum>k1<T. (\<Sum>t<T. X t h0 w0 * a k1 t) * (of_nat W * of_nat H * a' k1))"
      unfolding g2_def by (rule sum.cong [OF refl]) (simp add: mult_ac)
    also have "\<dots> = of_nat W * of_nat H * (of_nat T * X t0 h0 w0)"
      unfolding a_def a'_def by (rule dft_inverse_1d_scaled [OF assms(1)])
    finally show ?thesis .
  qed
  have "(\<Sum>k1<T. \<Sum>k2<H. \<Sum>k3<W.
            (\<Sum>t<T. \<Sum>h<H. \<Sum>w<W. X t h w * (a k1 t * b k2 h * c k3 w))
            * (a' k1 * b' k2 * c' k3))
        = of_nat W * of_nat H * (of_nat T * X t0 h0 w0)"
    by (simp only: F s3 s2 s1)
  then show ?thesis
    by (simp only: fwd bwd) (simp add: mult_ac)
qed

subsection \<open>Indices, broadcasting and rolling\<close>

lemma leading_append [simp]: "leading (lead @ [a, b, c]) = lead"
  by (simp add: leading_def)

lemma drop_last3:
  assumes "3 \<le> length xs"
  shows "drop (length xs - 3) xs
       = [xs ! (length xs - 3), xs ! (length xs - 2), xs ! (length xs - 1)]"
proof (rule nth_equalityI)
  show "length (drop (length xs - 3) xs)
      = length [xs ! (length xs - 3), xs ! (length xs - 2), xs ! (length xs - 1)]"
    using assms by simp
next
  fix i
  assume "i < length (drop (length xs - 3) xs)"
  then have "i < 3" using assms by simp
  then consider "i = 0" | "i = 1" | "i = 2" by linarith
  then show "drop (length xs - 3) xs ! i
      = [xs ! (length xs - 3), xs ! (length xs - 2), xs ! (length xs - 1)] ! i"
  proof cases
    case 1
    then show ?thesis using assms by simp
  next
    case 2
    have "length xs - 3 + 1 = length xs - 2" using assms by simp
    then show ?thesis using 2 assms by simp
  next
    case 3
    have "length xs - 3 + 2 = length xs - 1" using assms by simp
    then show ?thesis using 3 assms by simp
  qed
qed

lemma trailing_dims_split:
  assumes "trailing_dims s = Inr (T, H, W)"
  shows "s = leading s @ [T, H, W]"
proof -
  have n3: "3 \<le> length s"
    using assms by (simp add: trailing_dims_def Let_def split: if_splits)
  have d: "drop (length s - 3) s = [s ! (length s - 3), s ! (length s - 2), s ! (length s - 1)]"
    using n3 by (rule drop_last3)
  have "s = take (length s - 3) s @ drop (length s - 3) s" by simp
  then show ?thesis
    using assms d by (simp add: trailing_dims_def Let_def leading_def split: if_splits)
qed

lemma last3_split:
  assumes "last3 idx = Some (t, h, w)"
  shows "idx = leading idx @ [t, h, w]"
proof -
  have n3: "3 \<le> length idx"
    using assms by (simp add: last3_def Let_def split: if_splits)
  have d: "drop (length idx - 3) idx
      = [idx ! (length idx - 3), idx ! (length idx - 2), idx ! (length idx - 1)]"
    using n3 by (rule drop_last3)
  have "idx = take (length idx - 3) idx @ drop (length idx - 3) idx" by simp
  then show ?thesis
    using assms d by (simp add: last3_def Let_def leading_def split: if_splits)
qed

lemma valid_index_replace:
  assumes "valid_index s idx" and "trailing_dims s = Inr (T, H, W)"
    and "t < T" and "h < H" and "w < W"
  shows "valid_index s (leading idx @ [t, h, w])"
proof -
  have s: "s = leading s @ [T, H, W]"
    using assms(2) by (rule trailing_dims_split)
  have len: "length idx = length s"
    using assms(1) by (rule valid_index_length)
  have "list_all2 (\<lambda>i n. i < n) (take (length s - 3) idx) (take (length s - 3) s)"
    using assms(1) unfolding valid_index_def by (rule list_all2_takeI)
  then have "list_all2 (\<lambda>i n. i < n) (leading idx) (leading s)"
    by (simp add: leading_def len)
  then have "list_all2 (\<lambda>i n. i < n) (leading idx @ [t, h, w]) (leading s @ [T, H, W])"
    using assms(3-5) by (simp add: list_all2_appendI)
  then show ?thesis
    unfolding valid_index_def using s by simp
qed

lemma operand_index_valid:
  assumes "valid_index s idx"
  shows "operand_index s idx = idx"
proof -
  have len: "length idx = length s"
    using assms by (rule valid_index_length)
  have "map2 (\<lambda>len i. if len = 1 then 0 else i) s idx = idx"
    using assms unfolding valid_index_def
    by (induction idx s rule: list_all2_induct) auto
  then show ?thesis by (simp add: operand_index_def len)
qed

lemma broadcast_rev_self: "broadcast_rev xs xs = Some xs"
  by (induction xs) auto

lemma broadcast_shapes_self: "broadcast_shapes s s = Some s"
  by (simp add: broadcast_shapes_def broadcast_rev_self)

lemma broadcast_rev_length:
  "broadcast_rev xs ys = Some xs \<Longrightarrow> length ys \<le> length xs"
  by (induction xs ys rule: broadcast_rev.induct) (auto split: if_splits)

lemma broadcast_rev_operand:
  assumes "broadcast_rev xs ys = Some xs" and "list_all2 (\<lambda>i n. i < n) js xs"
  shows "list_all2 (\<lambda>i n. i < n)
           (map2 (\<lambda>len i. if len = 1 then 0 else i) ys (take (length ys) js)) ys"
  using assms
proof (induction xs ys arbitrary: js rule: broadcast_rev.induct)
  case (1 ys)
  then show ?case by simp
next
  case (2 x xs)
  then show ?case by simp
next
  case (3 x xs y ys)
  from "3.prems"(2) obtain j js' where js: "js = j # js'" and j: "j < x"
    and rest: "list_all2 (\<lambda>i n. i < n) js' xs"
    by (auto simp: list_all2_Cons2)
  from "3.prems"(1) have xy: "x = y \<or> y = 1" and r: "broadcast_rev xs ys = Some xs"
    by (auto split: if_splits)
  have "list_all2 (\<lambda>i n. i < n)
          (map2 (\<lambda>len i. if len = 1 then 0 else i) ys (take (length ys) js')) ys"
    using xy r rest "3.IH"(1) by blast
  then show ?case
    using xy j by (auto simp: js)
qed

lemma operand_index_broadcast:
  assumes bc: "broadcast_shapes s sl = Some s" and v: "valid_index s idx"
  shows "valid_index sl (operand_index sl idx)"
proof -
  have r: "broadcast_rev (rev s) (rev sl) = Some (rev s)"
    using bc by (auto simp: broadcast_shapes_def)
  have len: "length idx = length s"
    using v by (rule valid_index_length)
  have k: "length sl \<le> length s"
    using broadcast_rev_length [OF r] by simp
  have "list_all2 (\<lambda>i n. i < n) (rev idx) (rev s)"
    using v by (simp add: valid_index_def)
  then have "list_all2 (\<lambda>i n. i < n)
      (map2 (\<lambda>len i. if len = 1 then 0 else i) (rev sl) (take (length sl) (rev idx))) (rev sl)"
    using broadcast_rev_operand [OF r] by simp
  moreover have "take (length sl) (rev idx) = rev (drop (length idx - length sl) idx)"
    using k len by (simp add: rev_drop)
  moreover have "map2 (\<lambda>len i. if len = 1 then 0 else i) (rev sl)
        (rev (drop (length idx - length sl) idx))
      = rev (map2 (\<lambda>len i. if len = 1 then 0 else i) sl (drop (length idx - length sl) idx))"
    using k len by (simp add: zip_rev rev_map)
  ultimately show ?thesis
    by (simp add: valid_index_def operand_index_def)
qed

lemma rolled_less: "0 < len \<Longrightarrow> rolled len s j < len"
  by (simp add: rolled_def)

lemma rolled_inverse:
  assumes "j < len"
  shows "rolled len (len div 2) (rolled len ((len + 1) div 2) j) = j"
proof (cases "len = 1")
  case True
  then show ?thesis using assms by (simp add: rolled_def)
next
  case False
  then have l2: "2 \<le> len" using assms by simp
  have s1: "(len div 2) mod len = len div 2" using l2 by simp
  have s2: "((len + 1) div 2) mod len = (len + 1) div 2" using l2 by simp
  have sum: "len div 2 + (len + 1) div 2 = len" by presburger
  have le: "len div 2 \<le> len" by simp
  have "rolled len (len div 2) (rolled len ((len + 1) div 2) j)
      = ((j + len - (len + 1) div 2) mod len + len - len div 2) mod len"
    by (simp only: rolled_def s1 s2)
  also have "(j + len - (len + 1) div 2) mod len + len - len div 2
      = (j + len - (len + 1) div 2) mod len + (len - len div 2)"
    using le by linarith
  also have "((j + len - (len + 1) div 2) mod len + (len - len div 2)) mod len
      = ((j + len - (len + 1) div 2) + (len - len div 2)) mod len"
    by (rule mod_add_left_eq)
  also have "(j + len - (len + 1) div 2) + (len - len div 2) = j + len"
    using sum l2 by linarith
  also have "(j + len) mod len = j"
    using assms by simp
  finally show ?thesis .
qed

subsection \<open>Shifts and transforms on tensors that agree inside the shape\<close>

lemma agree_on_trans: "agree_on s a b \<Longrightarrow> agree_on s b c \<Longrightarrow> agree_on s a c"
  by (simp add: agree_on_def)

lemma roll3_agree:
  assumes dims: "trailing_dims s = Inr (T, H, W)"
    and sa: "shape a = s" and sb: "shape b = s" and ab: "agree_on s a b"
    and ra: "roll3 amount a = Inr a'" and rb: "roll3 amount b = Inr b'"
  shows "agree_on s a' b'"
  unfolding agree_on_def
proof (intro allI impI)
  fix idx
  assume v: "valid_index s idx"
  obtain t h w where l3: "last3 idx = Some (t, h, w)"
    using valid_index_last3_ex [OF v dims] by (cases "last3 idx") auto
  have r: "t < T \<and> h < H \<and> w < W"
    using valid_index_last3 [OF v dims l3] .
  let ?j = "leading idx @ [rolled T (amount T) t, rolled H (amount H) h, rolled W (amount W) w]"
  have "valid_index s ?j"
    using r by (intro valid_index_replace [OF v dims] rolled_less) auto
  then have eq: "elems a ?j = elems b ?j"
    using ab by (simp add: agree_on_def)
  have "elems a' idx = elems a ?j"
    using ra dims sa l3 by (auto simp: roll3_def)
  moreover have "elems b' idx = elems b ?j"
    using rb dims sb l3 by (auto simp: roll3_def)
  ultimately show "elems a' idx = elems b' idx"
    using eq by simp
qed

lemma ifftshift_fftshift:
  assumes dims: "trailing_dims s = Inr (T, H, W)" and sa: "shape a = s"
    and f: "fftshift a = Inr b" and i: "ifftshift b = Inr c"
  shows "agree_on s c a"
  unfolding agree_on_def
proof (intro allI impI)
  fix idx
  assume v: "valid_index s idx"
  obtain t h w where l3: "last3 idx = Some (t, h, w)"
    using valid_index_last3_ex [OF v dims] by (cases "last3 idx") auto
  have r: "t < T" "h < H" "w < W"
    using valid_index_last3 [OF v dims l3] by simp_all
  have sb: "shape b = s"
    using f dims sa by (auto simp: fftshift_def roll3_def)
  have "elems c idx
      = elems b (leading idx @ [rolled T ((T + 1) div 2) t, rolled H ((H + 1) div 2) h,
                                rolled W ((W + 1) div 2) w])"
    using i dims sb l3 by (auto simp: ifftshift_def roll3_def)
  also have "\<dots> = elems a (leading idx @
        [rolled T (T div 2) (rolled T ((T + 1) div 2) t),
         rolled H (H div 2) (rolled H ((H + 1) div 2) h),
         rolled W (W div 2) (rolled W ((W + 1) div 2) w)])"
    using f dims sa by (auto simp: fftshift_def roll3_def)
  also have "\<dots> = elems a (leading idx @ [t, h, w])"
    using r by (simp only: rolled_inverse)
  also have "\<dots> = elems a idx"
    using last3_split [OF l3] by simp
  finally show "elems c idx = elems a idx" .
qed

lemma ifftn_agree:
  assumes dims: "trailing_dims s = Inr (T, H, W)"
    and sa: "shape a = s" and sb: "shape b = s" and ab: "agree_on s a b"
    and ra: "ifftn a = Inr a'" and rb: "ifftn b = Inr b'"
  shows "agree_on s a' b'"
  unfolding agree_on_def
proof (intro allI impI)
  fix idx
  assume v: "valid_index s idx"
  obtain t h w where l3: "last3 idx = Some (t, h, w)"
    using valid_index_last3_ex [OF v dims] by (cases "last3 idx") auto
  have eq: "elems a (leading idx @ [k1, k2, k3]) = elems b (leading idx @ [k1, k2, k3])"
    if "k1 < T" "k2 < H" "k3 < W" for k1 k2 k3
    using ab valid_index_replace [OF v dims that] by (simp add: agree_on_def)
  have "elems a' idx = elems b' idx"
    using ra rb dims sa sb l3
    by (auto simp: ifftn_def eq split: if_splits)
  then show "elems a' idx = elems b' idx" .
qed

lemma ifftn_fftn:
  assumes dims: "trailing_dims s = Inr (T, H, W)" and sx: "shape x = s"
    and f: "fftn x = Inr xf" and i: "ifftn xf = Inr r"
  shows "\<forall>idx. valid_index s idx \<longrightarrow> elems r idx = complex_of_real (elems x idx)"
proof (intro allI impI)
  fix idx
  assume v: "valid_index s idx"
  obtain t h w where l3: "last3 idx = Some (t, h, w)"
    using valid_index_last3_ex [OF v dims] by (cases "last3 idx") auto
  have r: "t < T" "h < H" "w < W"
    using valid_index_last3 [OF v dims l3] by simp_all
  have pos: "T \<noteq> 0" "H \<noteq> 0" "W \<noteq> 0" using r by simp_all
  have xf: "elems xf (lead @ [k1, k2, k3])
      = (\<Sum>t<T. \<Sum>h<H. \<Sum>w<W. complex_of_real (elems x (lead @ [t, h, w]))
           * cis (- 2 * pi * (real k1 * real t / real T + real k2 * real h / real H
                               + real k3 * real w / real W)))" for lead k1 k2 k3
    using f dims sx pos by (auto simp: fftn_def)
  have sxf: "shape xf = s"
    using f dims sx pos by (auto simp: fftn_def)
  have "elems r idx
      = (\<Sum>k1<T. \<Sum>k2<H. \<Sum>k3<W. elems xf (leading idx @ [k1, k2, k3])
           * cis (2 * pi * (real k1 * real t / real T + real k2 * real h / real H
                             + real k3 * real w / real W))) / of_nat (T * H * W)"
    using i dims sxf pos l3 by (auto simp: ifftn_def)
  also have "\<dots> = of_nat (T * H * W) * complex_of_real (elems x (leading idx @ [t, h, w]))
        / of_nat (T * H * W)"
    by (simp only: xf dft_inverse_3d [OF r])
  also have "\<dots> = complex_of_real (elems x (leading idx @ [t, h, w]))"
    using pos by simp
  also have "\<dots> = complex_of_real (elems x idx)"
    using last3_split [OF l3] by simp
  finally show "elems r idx = complex_of_real (elems x idx)" .
qed

subsection \<open>The steps of the mixer\<close>

lemma fftn_result:
  assumes "trailing_dims (shape x) = Inr (T, H, W)" and "0 < T" and "0 < H" and "0 < W"
  shows "\<exists>xf. fftn x = Inr xf \<and> shape xf = shape x"
  using assms by (simp add: fftn_def)

lemma ifftn_result:
  assumes "trailing_dims (shape x) = Inr (T, H, W)" and "0 < T" and "0 < H" and "0 < W"
  shows "\<exists>r. ifftn x = Inr r \<and> shape r = shape x"
  using assms by (simp add: ifftn_def)

lemma roll3_shape:
  assumes "trailing_dims (shape a) = Inr (T, H, W)"
  shows "\<exists>r. roll3 amount a = Inr r \<and> shape r = shape a"
  using assms by (simp add: roll3_def)

lemma broadcast2_result:
  assumes "broadcast_shapes (shape a) (shape b) = Some s"
  shows "\<exists>r. broadcast2 f a b = Inr r \<and> shape r = s
           \<and> (\<forall>idx. elems r idx = f (elems a (operand_index (shape a) idx))
                                      (elems b (operand_index (shape b) idx)))"
  using assms by (simp add: broadcast2_def)

lemma freq_mix_3d_unfold:
  assumes dims: "trailing_dims s = Inr (T, H, W)" and pos: "0 < T" "0 < H" "0 < W"
    and sx: "shape x = s" and sn: "shape noise = s"
    and bc: "broadcast_shapes s (shape LPF) = Some s"
  shows "\<exists>xf xs nf ns mixed um ym.
           fftn x = Inr xf \<and> fftshift xf = Inr xs
         \<and> fftn noise = Inr nf \<and> fftshift nf = Inr ns
         \<and> shape mixed = s
         \<and> (\<forall>idx. valid_index s idx \<longrightarrow> elems mixed idx
               = elems xs idx * complex_of_real (elems LPF (operand_index (shape LPF) idx))
               + elems ns idx
                 * complex_of_real (1 - elems LPF (operand_index (shape LPF) idx)))
         \<and> ifftshift mixed = Inr um \<and> ifftn um = Inr ym
         \<and> freq_mix_3d x noise LPF = Inr (real_part ym)"
proof -
  obtain xf where xf: "fftn x = Inr xf" "shape xf = s"
    using fftn_result [of x T H W] dims pos sx by auto
  obtain xs where xs: "fftshift xf = Inr xs" "shape xs = s"
    using roll3_shape [of xf T H W] dims xf(2) by (auto simp: fftshift_def)
  obtain nf where nf: "fftn noise = Inr nf" "shape nf = s"
    using fftn_result [of noise T H W] dims pos sn by auto
  obtain ns where ns: "fftshift nf = Inr ns" "shape ns = s"
    using roll3_shape [of nf T H W] dims nf(2) by (auto simp: fftshift_def)
  define HPF where "HPF = rsub_scalar 1 LPF"
  have sh: "shape HPF = shape LPF" and eh: "\<And>idx. elems HPF idx = 1 - elems LPF idx"
    by (simp_all add: HPF_def rsub_scalar_def)
  obtain low where low: "tensor_mul xs LPF = Inr low" "shape low = s"
    "\<And>idx. elems low idx = elems xs (operand_index s idx)
        * complex_of_real (elems LPF (operand_index (shape LPF) idx))"
    using broadcast2_result [of xs LPF s] bc xs(2) by (auto simp: tensor_mul_def)
  obtain high where high: "tensor_mul ns HPF = Inr high" "shape high = s"
    "\<And>idx. elems high idx = elems ns (operand_index s idx)
        * complex_of_real (elems HPF (operand_index (shape LPF) idx))"
    using broadcast2_result [of ns HPF s] bc ns(2) sh by (auto simp: tensor_mul_def)
  obtain mixed where mixed: "tensor_add low high = Inr mixed" "shape mixed = s"
    "\<And>idx. elems mixed idx = elems low (operand_index s idx) + elems high (operand_index s idx)"
    using broadcast2_result [of low high s] low(2) high(2)
    by (auto simp: tensor_add_def broadcast_shapes_self)
  obtain um where um: "ifftshift mixed = Inr um" "shape um = s"
    using roll3_shape [of mixed T H W] dims mixed(2) by (auto simp: ifftshift_def)
  obtain ym where ym: "ifftn um = Inr ym" "shape ym = s"
    using ifftn_result [of um T H W] dims pos um(2) by auto
  have val: "elems mixed idx
      = elems xs idx * complex_of_real (elems LPF (operand_index (shape LPF) idx))
        + elems ns idx * complex_of_real (1 - elems LPF (operand_index (shape LPF) idx))"
    if "valid_index s idx" for idx
    using operand_index_valid [OF that] by (simp add: mixed(3) low(3) high(3) eh)
  have "freq_mix_3d x noise LPF = Inr (real_part ym)"
    using xf(1) xs(1) nf(1) ns(1) low(1) high(1) mixed(1) um(1) ym(1)
    by (simp add: freq_mix_3d_def and_then_def Let_def HPF_def)
  then show ?thesis
    using xf(1) xs(1) nf(1) ns(1) mixed(2) val um(1) ym(1) by blast
qed

lemma recover_signal:
  assumes dims: "trailing_dims s = Inr (T, H, W)" and pos: "0 < T" "0 < H" "0 < W"
    and sz: "shape z = s" and zf: "fftn z = Inr zf" and zs: "fftshift zf = Inr zs"
    and sm: "shape mixed = s" and ag: "agree_on s mixed zs"
    and um: "ifftshift mixed = Inr um" and ym: "ifftn um = Inr ym"
  shows "shape (real_part ym) = s
       \<and> (\<forall>idx. valid_index s idx \<longrightarrow> elems (real_part ym) idx = elems z idx)"
proof -
  have szf: "shape zf = s"
    using fftn_result [of z T H W] dims pos sz zf by auto
  have szs: "shape zs = s"
    using roll3_shape [of zf T H W "\<lambda>len. len div 2"] dims szf zs by (auto simp: fftshift_def)
  obtain c where c: "ifftshift zs = Inr c" "shape c = s"
    using roll3_shape [of zs T H W] dims szs by (auto simp: ifftshift_def)
  have sum: "shape um = s"
    using roll3_shape [of mixed T H W "\<lambda>len. (len + 1) div 2"] dims sm um
    by (auto simp: ifftshift_def)
  have "agree_on s um c"
    using roll3_agree [OF dims sm szs ag] um c(1) by (simp add: ifftshift_def)
  moreover have "agree_on s c zf"
    using ifftshift_fftshift [OF dims szf zs c(1)] .
  ultimately have ag2: "agree_on s um zf"
    by (rule agree_on_trans)
  obtain r where r: "ifftn zf = Inr r" "shape r = s"
    using ifftn_result [of zf T H W] dims pos szf by auto
  have ag3: "agree_on s ym r"
    using ifftn_agree [OF dims sum szf ag2 ym r(1)] .
  have inv: "\<forall>idx. valid_index s idx \<longrightarrow> elems r idx = complex_of_real (elems z idx)"
    using ifftn_fftn [OF dims sz zf r(1)] .
  have sy: "shape ym = s"
    using ifftn_result [of um T H W] dims pos sum ym by auto
  show ?thesis
    using ag3 inv sy by (simp add: agree_on_def real_part_def)
qed

subsection \<open>Mixing with the masks of ones and zeros, and mixing a signal with itself\<close>

text \<open>
  Claim C5. For \<open>x\<close> and \<open>noise\<close> of one shape, with at least three dimensions and no empty
  trailing axis, and a mask that broadcasts to that shape: mixing with a mask whose
  entries are all 1 returns \<open>x\<close>, and mixing with a mask whose entries are all 0 returns
  \<open>noise\<close>, at every index of the shape. The arithmetic is exact here, so the tolerance
  of the claim is zero.
\<close>

theorem mix_ones_zeros:
  assumes dims: "trailing_dims (shape x) = Inr (T, H, W)" and pos: "0 < T" "0 < H" "0 < W"
    and sn: "shape noise = shape x"
    and bc: "broadcast_shapes (shape x) (shape LPF) = Some (shape x)"
  shows "((\<forall>i. valid_index (shape LPF) i \<longrightarrow> elems LPF i = 1) \<longrightarrow>
           (\<exists>y. freq_mix_3d x noise LPF = Inr y \<and> shape y = shape x
              \<and> (\<forall>idx. valid_index (shape x) idx \<longrightarrow> elems y idx = elems x idx)))
       \<and> ((\<forall>i. valid_index (shape LPF) i \<longrightarrow> elems LPF i = 0) \<longrightarrow>
           (\<exists>y. freq_mix_3d x noise LPF = Inr y \<and> shape y = shape x
              \<and> (\<forall>idx. valid_index (shape x) idx \<longrightarrow> elems y idx = elems noise idx)))"
proof -
  obtain xf xs nf ns mixed um ym where u:
    "fftn x = Inr xf" "fftshift xf = Inr xs"
    "fftn noise = Inr nf" "fftshift nf = Inr ns" "shape mixed = shape x"
    "\<forall>idx. valid_index (shape x) idx \<longrightarrow> elems mixed idx
        = elems xs idx * complex_of_real (elems LPF (operand_index (shape LPF) idx))
        + elems ns idx * complex_of_real (1 - elems LPF (operand_index (shape LPF) idx))"
    "ifftshift mixed = Inr um" "ifftn um = Inr ym"
    "freq_mix_3d x noise LPF = Inr (real_part ym)"
    using freq_mix_3d_unfold [OF dims pos refl sn bc] by (elim exE conjE) (rule that)
  have inside: "valid_index (shape LPF) (operand_index (shape LPF) idx)"
    if "valid_index (shape x) idx" for idx
    using operand_index_broadcast [OF bc that] .
  show ?thesis
  proof (intro conjI impI)
    assume one: "\<forall>i. valid_index (shape LPF) i \<longrightarrow> elems LPF i = 1"
    have "agree_on (shape x) mixed xs"
      using u(6) one inside by (simp add: agree_on_def)
    then show "\<exists>y. freq_mix_3d x noise LPF = Inr y \<and> shape y = shape x
        \<and> (\<forall>idx. valid_index (shape x) idx \<longrightarrow> elems y idx = elems x idx)"
      using recover_signal [OF dims pos refl u(1) u(2) u(5) _ u(7) u(8)] u(9) by simp
  next
    assume zero: "\<forall>i. valid_index (shape LPF) i \<longrightarrow> elems LPF i = 0"
    have "agree_on (shape x) mixed ns"
      using u(6) zero inside by (simp add: agree_on_def)
    then show "\<exists>y. freq_mix_3d x noise LPF = Inr y \<and> shape y = shape x
        \<and> (\<forall>idx. valid_index (shape x) idx \<longrightarrow> elems y idx = elems noise idx)"
      using recover_signal [OF dims pos sn u(3) u(4) u(5) _ u(7) u(8)] u(9) by simp
  qed
qed

theorem mix_ones_zeros_witness:
  "(\<exists>y. freq_mix_3d \<lparr>shape = [1, 1, 2, 2, 2], elems = (\<lambda>idx. real (idx ! 2 + 2 * idx ! 3))\<rparr>
          \<lparr>shape = [1, 1, 2, 2, 2], elems = (\<lambda>idx. 5 - real (idx ! 4))\<rparr> (ones [2, 2, 2]) = Inr y
        \<and> shape y = [1, 1, 2, 2, 2] \<and> elems y [0, 0, 1, 1, 0] = 3)
   \<and> (\<exists>y. freq_mix_3d \<lparr>shape = [1, 1, 2, 2, 2], elems = (\<lambda>idx. real (idx ! 2 + 2 * idx ! 3))\<rparr>
          \<lparr>shape = [1, 1, 2, 2, 2], elems = (\<lambda>idx. 5 - real (idx ! 4))\<rparr> (zeros [2, 2, 2]) = Inr y
        \<and> shape y = [1, 1, 2, 2, 2] \<and> elems y [0, 0, 1, 1, 0] = 5)"
  using mix_ones_zeros [of
      "\<lparr>shape = [1, 1, 2, 2, 2], elems = (\<lambda>idx. real (idx ! 2 + 2 * idx ! 3))\<rparr>" 2 2 2
      "\<lparr>shape = [1, 1, 2, 2, 2], elems = (\<lambda>idx. 5 - real (idx ! 4))\<rparr>" "ones [2, 2, 2]"]
    mix_ones_zeros [of
      "\<lparr>shape = [1, 1, 2, 2, 2], elems = (\<lambda>idx. real (idx ! 2 + 2 * idx ! 3))\<rparr>" 2 2 2
      "\<lparr>shape = [1, 1, 2, 2, 2], elems = (\<lambda>idx. 5 - real (idx ! 4))\<rparr>" "zeros [2, 2, 2]"]
  by (simp add: trailing_dims_def broadcast_shapes_def valid_index_def ones_def zeros_def) force

text \<open>
  Claim C6. For \<open>x\<close> with at least three dimensions and no empty trailing axis, and any
  mask that broadcasts to the shape of \<open>x\<close>, mixing \<open>x\<close> with itself returns \<open>x\<close> at every
  index of the shape: the parts weighted by the mask and by its complement add up to the
  spectrum of \<open>x\<close>. The arithmetic is exact here, so the tolerance of the claim is zero.
\<close>

theorem mix_self:
  assumes dims: "trailing_dims (shape x) = Inr (T, H, W)" and pos: "0 < T" "0 < H" "0 < W"
    and bc: "broadcast_shapes (shape x) (shape LPF) = Some (shape x)"
  shows "\<exists>y. freq_mix_3d x x LPF = Inr y \<and> shape y = shape x
           \<and> (\<forall>idx. valid_index (shape x) idx \<longrightarrow> elems y idx = elems x idx)"
proof -
  obtain xf xs nf ns mixed um ym where u:
    "fftn x = Inr xf" "fftshift xf = Inr xs" "fftn x = Inr nf" "fftshift nf = Inr ns"
    "shape mixed = shape x"
    "\<forall>idx. valid_index (shape x) idx \<longrightarrow> elems mixed idx
        = elems xs idx * complex_of_real (elems LPF (operand_index (shape LPF) idx))
        + elems ns idx * complex_of_real (1 - elems LPF (operand_index (shape LPF) idx))"
    "ifftshift mixed = Inr um" "ifftn um = Inr ym"
    "freq_mix_3d x x LPF = Inr (real_part ym)"
    using freq_mix_3d_unfold [OF dims pos refl refl bc] by (elim exE conjE) (rule that)
  have "nf = xf" using u(1,3) by simp
  then have "ns = xs" using u(2,4) by simp
  then have "agree_on (shape x) mixed xs"
    using u(6) by (simp add: agree_on_def algebra_simps)
  then show ?thesis
    using recover_signal [OF dims pos refl u(1) u(2) u(5) _ u(7) u(8)] u(9) by simp
qed

theorem mix_self_witness:
  "\<exists>y. freq_mix_3d \<lparr>shape = [1, 1, 2, 2, 2], elems = (\<lambda>idx. real (idx ! 2 + 2 * idx ! 3))\<rparr>
         \<lparr>shape = [1, 1, 2, 2, 2], elems = (\<lambda>idx. real (idx ! 2 + 2 * idx ! 3))\<rparr>
         \<lparr>shape = [2, 1, 2], elems = (\<lambda>idx. real (idx ! 0) / 3)\<rparr> = Inr y
       \<and> shape y = [1, 1, 2, 2, 2] \<and> elems y [0, 0, 1, 1, 0] = 3"
  using mix_self [of
      "\<lparr>shape = [1, 1, 2, 2, 2], elems = (\<lambda>idx. real (idx ! 2 + 2 * idx ! 3))\<rparr>" 2 2 2
      "\<lparr>shape = [2, 1, 2], elems = (\<lambda>idx. real (idx ! 0) / 3)\<rparr>"]
  by (simp add: trailing_dims_def broadcast_shapes_def valid_index_def) force

end
